theory Spec2Isabelle
  imports Complex_Main "HOL-Library.Sublist"
begin

section \<open>The Yahoo finance update coordinator\<close>

text \<open>
  A shallow embedding of \<^verbatim>\<open>custom_components/yahoofinance/__init__.py\<close>: the
  normalisation of the configured symbols, the parsing of one quote, the validation of
  the fetched document, the retry wrapper and the one-shot timer slot of
  \<^verbatim>\<open>YahooSymbolUpdateCoordinator\<close>. A leading underscore of a Python name is
  dropped (\<^verbatim>\<open>_async_update\<close> is \<open>async_update\<close>), since an Isabelle name
  cannot start with one.
\<close>

subsection \<open>Python values\<close>

text \<open>
  What \<^verbatim>\<open>response.json()\<close> can return: \<^verbatim>\<open>None\<close>, a bool, an int, a float,
  a str, a list or a dict with str keys. A dict is the list of its items, read with
  \<open>map_of\<close>. The code never computes with a float, it only carries it from the
  document to the quote record, so a float is represented by the rational number its
  literal denotes.
\<close>

datatype json =
    JNull
  | JBool bool
  | JInt int
  | JFloat rat
  | JStr string
  | JList "json list"
  | JObj "(string \<times> json) list"

text \<open>
  The exceptions the code can raise. \<^verbatim>\<open>UpdateFailed\<close> carries its argument, which
  is a message or the \<^verbatim>\<open>error\<close> member of the document, whatever its type.
  \<open>FetchError\<close> stands for any exception raised inside \<^verbatim>\<open>get_json\<close> (timeout,
  transport error, undecodable body), named by its text.
\<close>

datatype error =
    UpdateFailed json
  | KeyError string
  | TypeError
  | FetchError string

definition bind :: "error + 'a \<Rightarrow> ('a \<Rightarrow> error + 'b) \<Rightarrow> error + 'b" where
  "bind r f = (case r of Inl e \<Rightarrow> Inl e | Inr v \<Rightarrow> f v)"

text \<open>\<^verbatim>\<open>key in container\<close> for a str \<open>key\<close>: a dict tests its keys, a list its
  elements, a str its substrings, anything else is not iterable.\<close>

fun py_contains :: "string \<Rightarrow> json \<Rightarrow> error + bool" where
  "py_contains key (JObj m) = Inr (map_of m key \<noteq> None)"
| "py_contains key (JList xs) = Inr (JStr key \<in> set xs)"
| "py_contains key (JStr s) = Inr (sublist key s)"
| "py_contains key _ = Inl TypeError"

text \<open>\<^verbatim>\<open>container[key]\<close> for a str \<open>key\<close>: only a dict accepts it.\<close>

fun py_getitem :: "json \<Rightarrow> string \<Rightarrow> error + json" where
  "py_getitem (JObj m) key = (case map_of m key of None \<Rightarrow> Inl (KeyError key) | Some v \<Rightarrow> Inr v)"
| "py_getitem _ key = Inl TypeError"

text \<open>\<^verbatim>\<open>d.get(key, default)\<close> on a dict.\<close>

definition dict_get :: "(string \<times> json) list \<Rightarrow> string \<Rightarrow> json \<Rightarrow> json" where
  "dict_get d key dflt = (case map_of d key of None \<Rightarrow> dflt | Some v \<Rightarrow> v)"

text \<open>
  The keys of the dict \<^verbatim>\<open>data\<close>. A list or a dict is unhashable; \<^verbatim>\<open>True\<close>,
  \<^verbatim>\<open>1\<close> and \<^verbatim>\<open>1.0\<close> are equal and hash alike, so they are one key.
\<close>

datatype pykey = KNone | KNum rat | KStr string

fun dict_key :: "json \<Rightarrow> error + pykey" where
  "dict_key JNull = Inr KNone"
| "dict_key (JBool b) = Inr (KNum (if b then 1 else 0))"
| "dict_key (JInt i) = Inr (KNum (of_int i))"
| "dict_key (JFloat r) = Inr (KNum r)"
| "dict_key (JStr s) = Inr (KStr s)"
| "dict_key (JList xs) = Inl TypeError"
| "dict_key (JObj m) = Inl TypeError"

type_synonym quote_record = "string \<rightharpoonup> json"
type_synonym snapshot = "pykey \<rightharpoonup> quote_record"

subsection \<open>Constants\<close>

definition DELAY_ASYNC_REQUEST_REFRESH :: nat where
  "DELAY_ASYNC_REQUEST_REFRESH = 5"

definition FAILURE_ASYNC_REQUEST_REFRESH :: nat where
  "FAILURE_ASYNC_REQUEST_REFRESH = 20"

text \<open>
  The module \<^verbatim>\<open>const.py\<close> is not among the sources, so the three names the code
  imports from it and uses here are parameters. An entry of \<^verbatim>\<open>NUMERIC_DATA_KEYS\<close>
  is a tuple of which the code reads component 0 only; the rest has type \<open>'a\<close>.
\<close>

record 'a const =
  NUMERIC_DATA_KEYS :: "(string \<times> 'a) list"
  STRING_DATA_KEYS :: "string list"
  DATA_REGULAR_MARKET_PRICE :: string

subsection \<open>Normalising the configured symbols\<close>

text \<open>A configured symbol is a str or a dict of str.\<close>

datatype symbol_def = Basic string | Complex "(string \<times> string) list"

text \<open>
  The loop of \<^verbatim>\<open>normalize_input\<close>. The Python set \<^verbatim>\<open>symbols\<close> is kept as the
  list of its elements in the order they were added; only membership is read from it
  inside the loop.
\<close>

fun normalize_loop ::
  "symbol_def list \<Rightarrow> string list \<Rightarrow> symbol_def list \<Rightarrow> error + (string list \<times> symbol_def list)"
where
  "normalize_loop [] symbols normalized_symbols = Inr (symbols, normalized_symbols)"
| "normalize_loop (Basic v # rest) symbols normalized_symbols =
     (if v \<notin> set symbols
      then normalize_loop rest (symbols @ [v])
             (normalized_symbols @ [Complex [(''symbol'', v)]])
      else normalize_loop rest symbols normalized_symbols)"
| "normalize_loop (Complex v # rest) symbols normalized_symbols =
     (case map_of v ''symbol'' of
        None \<Rightarrow> Inl (KeyError ''symbol'')
      | Some s \<Rightarrow>
          if s \<notin> set symbols
          then normalize_loop rest (symbols @ [s]) (normalized_symbols @ [Complex v])
          else normalize_loop rest symbols normalized_symbols)"

text \<open>
  \<^verbatim>\<open>list(symbols)\<close> lists a set in its iteration order, which Python leaves
  unspecified (for str it changes with the hash seed of the process). The order is the
  parameter \<open>list_of_set\<close>, from the elements in the order they were added to the list
  Python builds; \<open>set_order\<close> is all that is known about it.
\<close>

definition set_order :: "(string list \<Rightarrow> string list) \<Rightarrow> bool" where
  "set_order list_of_set =
     (\<forall>xs. distinct xs \<longrightarrow> distinct (list_of_set xs) \<and> set (list_of_set xs) = set xs)"

definition normalize_input ::
  "(string list \<Rightarrow> string list) \<Rightarrow> symbol_def list \<Rightarrow> error + (string list \<times> symbol_def list)"
where
  "normalize_input list_of_set defined_symbols =
     bind (normalize_loop defined_symbols [] [])
       (\<lambda>(symbols, normalized_symbols). Inr (list_of_set symbols, normalized_symbols))"

subsection \<open>Parsing one quote\<close>

definition parse_symbol_data :: "'a const \<Rightarrow> (string \<times> json) list \<Rightarrow> quote_record" where
  "parse_symbol_data c symbol_data =
     (let data = fold (\<lambda>v data. data(fst v \<mapsto> dict_get symbol_data (fst v) (JInt 0)))
                   (NUMERIC_DATA_KEYS c) Map.empty
      in fold (\<lambda>key data. data(key \<mapsto> dict_get symbol_data key JNull))
           (STRING_DATA_KEYS c) data)"

subsection \<open>From the document to the snapshot\<close>

text \<open>
  The loop over \<^verbatim>\<open>result\<close>. \<^verbatim>\<open>symbol_data["symbol"]\<close> needs a dict with that
  key, \<^verbatim>\<open>data[symbol] = ...\<close> a hashable symbol, and the argument of the debug log,
  \<^verbatim>\<open>data[symbol][DATA_REGULAR_MARKET_PRICE]\<close>, is evaluated whatever the log level.
\<close>

fun update_loop :: "'a const \<Rightarrow> json list \<Rightarrow> snapshot \<Rightarrow> error + snapshot" where
  "update_loop c [] data = Inr data"
| "update_loop c (JObj symbol_data # rest) data =
     (case map_of symbol_data ''symbol'' of
        None \<Rightarrow> Inl (KeyError ''symbol'')
      | Some symbol \<Rightarrow>
          bind (dict_key symbol) (\<lambda>k.
            let quote = parse_symbol_data c symbol_data in
            (case quote (DATA_REGULAR_MARKET_PRICE c) of
               None \<Rightarrow> Inl (KeyError (DATA_REGULAR_MARKET_PRICE c))
             | Some price \<Rightarrow> update_loop c rest (data(k \<mapsto> quote)))))"
| "update_loop c (_ # rest) data = Inl TypeError"

text \<open>
  \<^verbatim>\<open>for symbol_data in result\<close>: a list gives its elements. A dict gives its keys and
  a str its characters, which are str, so the first \<^verbatim>\<open>symbol_data["symbol"]\<close> raises
  \<^verbatim>\<open>TypeError\<close> unless there is nothing to iterate. Anything else is not iterable.
\<close>

fun for_result :: "'a const \<Rightarrow> json \<Rightarrow> error + snapshot" where
  "for_result c (JList items) = update_loop c items Map.empty"
| "for_result c (JObj m) = (if m = [] then Inr Map.empty else Inl TypeError)"
| "for_result c (JStr s) = (if s = [] then Inr Map.empty else Inl TypeError)"
| "for_result c _ = Inl TypeError"

text \<open>The body of \<^verbatim>\<open>_async_update\<close> after the fetch.\<close>

definition update_from_json :: "'a const \<Rightarrow> json \<Rightarrow> error + snapshot" where
  "update_from_json c json =
     (if json = JNull then Inl (UpdateFailed (JStr ''No data received''))
      else
        bind (py_contains ''quoteResponse'' json) (\<lambda>has_quoteResponse.
        if \<not> has_quoteResponse
        then Inl (UpdateFailed (JStr ''Data invalid, 'quoteResponse' not found.''))
        else
          bind (py_getitem json ''quoteResponse'') (\<lambda>quoteResponse.
          bind (py_contains ''error'' quoteResponse) (\<lambda>has_error.
          bind (if has_error
                then bind (py_getitem quoteResponse ''error'') (\<lambda>err.
                       if err \<noteq> JNull then Inl (UpdateFailed err) else Inr ())
                else Inr ()) (\<lambda>_.
          bind (py_contains ''result'' quoteResponse) (\<lambda>has_result.
          if \<not> has_result
          then Inl (UpdateFailed (JStr ''Data invalid, no 'result' found''))
          else
            bind (py_getitem quoteResponse ''result'') (\<lambda>result.
            if result = JNull
            then Inl (UpdateFailed (JStr ''Data invalid, 'result' is None''))
            else for_result c result)))))))"

subsection \<open>The coordinator and the scheduler\<close>

text \<open>
  The fields of the coordinator, and what it does to the world around it: the one-shot
  timers it has registered with \<^verbatim>\<open>event.async_call_later\<close> that have neither fired nor
  been cancelled (handle and delay in seconds; the callback is always
  \<^verbatim>\<open>async_request_refresh_later\<close>), the next fresh handle, the number of calls of
  \<^verbatim>\<open>async_request_refresh\<close> and the number of calls of \<^verbatim>\<open>get_json\<close>.
\<close>

record coordinator =
  symbols :: "string list"
  data :: "snapshot option"
  last_update_success :: bool
  refresh_remover :: "nat option"
  timers :: "(nat \<times> nat) list"
  next_handle :: nat
  refresh_requests :: nat
  fetches :: nat

text \<open>\<^verbatim>\<open>__init__\<close>; \<open>last_update_success\<close> starts as the base class sets it.\<close>

definition init :: "string list \<Rightarrow> coordinator" where
  "init syms =
     \<lparr>symbols = syms, data = None, last_update_success = True, refresh_remover = None,
      timers = [], next_handle = 0, refresh_requests = 0, fetches = 0\<rparr>"

definition get_symbols :: "coordinator \<Rightarrow> string list" where
  "get_symbols st = symbols st"

text \<open>\<^verbatim>\<open>event.async_call_later\<close> registers a timer and returns the function that
  cancels it, here its handle; \<open>cancel\<close> is the call of that function.\<close>

definition async_call_later :: "nat \<Rightarrow> coordinator \<Rightarrow> nat \<times> coordinator" where
  "async_call_later duration st =
     (next_handle st,
      st\<lparr>timers := timers st @ [(next_handle st, duration)],
         next_handle := Suc (next_handle st)\<rparr>)"

definition cancel :: "nat \<Rightarrow> coordinator \<Rightarrow> coordinator" where
  "cancel h st = st\<lparr>timers := filter (\<lambda>t. fst t \<noteq> h) (timers st)\<rparr>"

definition add_refresh_later :: "nat \<Rightarrow> coordinator \<Rightarrow> coordinator" where
  "add_refresh_later duration st =
     (let st1 = (case refresh_remover st of
                   None \<Rightarrow> st
                 | Some h \<Rightarrow> (cancel h st)\<lparr>refresh_remover := None\<rparr>);
          (h, st2) = async_call_later duration st1
      in st2\<lparr>refresh_remover := Some h\<rparr>)"

definition add_symbol :: "string \<Rightarrow> coordinator \<Rightarrow> bool \<times> coordinator" where
  "add_symbol symbol st =
     (if symbol \<notin> set (symbols st)
      then (True, add_refresh_later DELAY_ASYNC_REQUEST_REFRESH
                    (st\<lparr>symbols := symbols st @ [symbol]\<rparr>))
      else (False, st))"

text \<open>
  \<^verbatim>\<open>async_request_refresh\<close> is inherited: it hands the request to the debouncer,
  which runs the refresh later. Only the call is recorded.
\<close>

definition async_request_refresh :: "coordinator \<Rightarrow> coordinator" where
  "async_request_refresh st = st\<lparr>refresh_requests := Suc (refresh_requests st)\<rparr>"

definition async_request_refresh_later :: "coordinator \<Rightarrow> coordinator" where
  "async_request_refresh_later st = async_request_refresh st"

text \<open>The scheduler fires a live timer: the timer is gone and its callback runs. The
  slot \<open>refresh_remover\<close> keeps the stale handle.\<close>

definition fire :: "nat \<Rightarrow> coordinator \<Rightarrow> coordinator" where
  "fire h st =
     (if h \<in> fst ` set (timers st)
      then async_request_refresh_later (st\<lparr>timers := filter (\<lambda>t. fst t \<noteq> h) (timers st)\<rparr>)
      else st)"

subsection \<open>The refresh attempt\<close>

text \<open>\<^verbatim>\<open>get_json\<close>: the outcome of the network exchange is the parameter
  \<open>fetched\<close>, an exception or the decoded document.\<close>

definition get_json :: "error + json \<Rightarrow> coordinator \<Rightarrow> (error + json) \<times> coordinator" where
  "get_json fetched st = (fetched, st\<lparr>fetches := Suc (fetches st)\<rparr>)"

definition async_update ::
  "'a const \<Rightarrow> error + json \<Rightarrow> coordinator \<Rightarrow> (error + snapshot) \<times> coordinator"
where
  "async_update c fetched st =
     (case get_json fetched st of
        (Inl e, st') \<Rightarrow> (Inl e, st')
      | (Inr json, st') \<Rightarrow> (update_from_json c json, st'))"

text \<open>\<^verbatim>\<open>_async_update_with_retry\<close>: the bare \<^verbatim>\<open>except\<close> catches every
  exception, arms the timer and raises the exception again.\<close>

definition async_update_with_retry ::
  "'a const \<Rightarrow> error + json \<Rightarrow> coordinator \<Rightarrow> (error + snapshot) \<times> coordinator"
where
  "async_update_with_retry c fetched st =
     (case async_update c fetched st of
        (Inr d, st') \<Rightarrow> (Inr d, st')
      | (Inl e, st') \<Rightarrow> (Inl e, add_refresh_later FAILURE_ASYNC_REQUEST_REFRESH st'))"

text \<open>
  Modelled from the spec: \<^verbatim>\<open>DataUpdateCoordinator.async_refresh\<close>, the inherited
  caller of the update method, is not among the sources. As the spec and the docstring
  of \<^verbatim>\<open>_async_update\<close> have it, it stores the returned data and sets
  \<^verbatim>\<open>last_update_success\<close> on success, and on an exception it clears
  \<^verbatim>\<open>last_update_success\<close> and keeps the data it had.
\<close>

definition async_refresh :: "'a const \<Rightarrow> error + json \<Rightarrow> coordinator \<Rightarrow> coordinator" where
  "async_refresh c fetched st =
     (case async_update_with_retry c fetched st of
        (Inr d, st') \<Rightarrow> st'\<lparr>data := Some d, last_update_success := True\<rparr>
      | (Inl e, st') \<Rightarrow> st'\<lparr>last_update_success := False\<rparr>)"

subsection \<open>Runs of the coordinator\<close>

text \<open>What can happen to a coordinator once it is built: a consumer adds a symbol, a
  refresh attempt runs on some outcome of the fetch, the scheduler fires a timer, or
  somebody requests a refresh.\<close>

datatype event = AddSymbol string | Refresh "error + json" | Fire nat | RequestRefresh

fun apply_event :: "'a const \<Rightarrow> event \<Rightarrow> coordinator \<Rightarrow> coordinator" where
  "apply_event c (AddSymbol s) st = snd (add_symbol s st)"
| "apply_event c (Refresh fetched) st = async_refresh c fetched st"
| "apply_event c (Fire h) st = fire h st"
| "apply_event c RequestRefresh st = async_request_refresh st"

definition run :: "'a const \<Rightarrow> event list \<Rightarrow> coordinator \<Rightarrow> coordinator" where
  "run c events st = fold (apply_event c) events st"

subsection \<open>What the properties are stated with\<close>

text \<open>The timer slot and the scheduler agree: no timer is live but the one whose
  handle is in \<open>refresh_remover\<close>.\<close>

definition one_timer :: "coordinator \<Rightarrow> bool" where
  "one_timer st =
     (case timers st of
        [] \<Rightarrow> True
      | [t] \<Rightarrow> refresh_remover st = Some (fst t)
      | _ \<Rightarrow> False)"

text \<open>
  The five violations of the payload shape, in the order the spec lists them, and the
  first one a document commits. \<open>member\<close> reads a key of a JSON object.
\<close>

datatype violation =
    NoData
  | MissingContainer
  | EmbeddedError json
  | MissingResultList
  | NullResultList

definition member :: "json \<Rightarrow> string \<Rightarrow> json option" where
  "member j key = (case j of JObj m \<Rightarrow> map_of m key | _ \<Rightarrow> None)"

definition result_violation :: "json \<Rightarrow> violation option" where
  "result_violation container =
     (case member container ''result'' of
        None \<Rightarrow> Some MissingResultList
      | Some result \<Rightarrow> if result = JNull then Some NullResultList else None)"

definition violation :: "json \<Rightarrow> violation option" where
  "violation json =
     (if json = JNull then Some NoData
      else case member json ''quoteResponse'' of
        None \<Rightarrow> Some MissingContainer
      | Some container \<Rightarrow>
          (case member container ''error'' of
             None \<Rightarrow> result_violation container
           | Some err \<Rightarrow>
               if err \<noteq> JNull then Some (EmbeddedError err)
               else result_violation container))"

fun diagnostic :: "violation \<Rightarrow> json" where
  "diagnostic NoData = JStr ''No data received''"
| "diagnostic MissingContainer = JStr ''Data invalid, 'quoteResponse' not found.''"
| "diagnostic (EmbeddedError err) = err"
| "diagnostic MissingResultList = JStr ''Data invalid, no 'result' found''"
| "diagnostic NullResultList = JStr ''Data invalid, 'result' is None''"

text \<open>The documents on which the validation itself cannot raise a type error: nothing, or
  an object whose \<^verbatim>\<open>quoteResponse\<close>, when it has one, is an object.\<close>

definition object_shaped :: "json \<Rightarrow> bool" where
  "object_shaped json =
     (case json of
        JNull \<Rightarrow> True
      | JObj doc \<Rightarrow>
          (case map_of doc ''quoteResponse'' of
             None \<Rightarrow> True
           | Some (JObj container) \<Rightarrow> True
           | Some _ \<Rightarrow> False)
      | _ \<Rightarrow> False)"

text \<open>A well-formed element of the result list is an object whose \<^verbatim>\<open>symbol\<close> is a
  str; \<open>entry\<close> is the item of the snapshot it stands for.\<close>

definition well_formed_element :: "json \<Rightarrow> bool" where
  "well_formed_element x =
     (case x of
        JObj symbol_data \<Rightarrow>
          (case map_of symbol_data ''symbol'' of Some (JStr s) \<Rightarrow> True | _ \<Rightarrow> False)
      | _ \<Rightarrow> False)"

definition entry :: "'a const \<Rightarrow> json \<Rightarrow> pykey \<times> quote_record" where
  "entry c x =
     (case x of
        JObj symbol_data \<Rightarrow>
          (case map_of symbol_data ''symbol'' of
             Some (JStr s) \<Rightarrow> (KStr s, parse_symbol_data c symbol_data)
           | _ \<Rightarrow> (KNone, Map.empty))
      | _ \<Rightarrow> (KNone, Map.empty))"

text \<open>The result list of a document, and the well-formed documents of the wire shape:
  no violation, and a result list of well-formed elements.\<close>

definition result_items :: "json \<Rightarrow> json list option" where
  "result_items json =
     (case member json ''quoteResponse'' of
        None \<Rightarrow> None
      | Some container \<Rightarrow>
          (case member container ''result'' of
             Some (JList items) \<Rightarrow> Some items
           | _ \<Rightarrow> None))"

definition well_formed_payload :: "json \<Rightarrow> bool" where
  "well_formed_payload json =
     (object_shaped json \<and> violation json = None \<and>
      (case result_items json of
         None \<Rightarrow> False
       | Some items \<Rightarrow> list_all well_formed_element items))"

definition schema :: "'a const \<Rightarrow> string set" where
  "schema c = fst ` set (NUMERIC_DATA_KEYS c) \<union> set (STRING_DATA_KEYS c)"

text \<open>The symbol of a configured entry, and a list in first-seen order without its
  repetitions.\<close>

fun symbol_name :: "symbol_def \<Rightarrow> string option" where
  "symbol_name (Basic v) = Some v"
| "symbol_name (Complex v) = map_of v ''symbol''"

definition first_seen :: "string list \<Rightarrow> string list" where
  "first_seen xs = rev (remdups (rev xs))"

text \<open>A schema and the document of the spec's example, for the concrete instances.\<close>

definition example_const :: "bool const" where
  "example_const =
     \<lparr>NUMERIC_DATA_KEYS =
        [(''regularMarketPrice'', True), (''regularMarketChange'', True),
         (''twoHundredDayAverageChangePercent'', False)],
      STRING_DATA_KEYS = [''currency'', ''shortName''],
      DATA_REGULAR_MARKET_PRICE = ''regularMarketPrice''\<rparr>"

definition example_payload :: json where
  "example_payload =
     JObj [(''quoteResponse'', JObj
       [(''error'', JNull),
        (''result'', JList
          [JObj [(''symbol'', JStr ''BABA''),
                 (''regularMarketPrice'', JFloat 232.73),
                 (''regularMarketChange'', JFloat (-5.66)),
                 (''twoHundredDayAverageChangePercent'', JFloat (-0.1261))]])])]"

text \<open>Two more documents: the spec's example of an embedded error, and a document that
  passes the validation with an element that has no \<^verbatim>\<open>symbol\<close>.\<close>

definition rate_limited_payload :: json where
  "rate_limited_payload =
     JObj [(''quoteResponse'', JObj [(''error'', JStr ''rate limited''), (''result'', JNull)])]"

definition payload_without_symbol :: json where
  "payload_without_symbol =
     JObj [(''quoteResponse'', JObj
       [(''error'', JNull),
        (''result'', JList [JObj [(''regularMarketPrice'', JFloat 232.73)]])])]"

section \<open>The timer slot\<close>

lemma add_refresh_later_timers:
  "timers (add_refresh_later d st) =
     filter (\<lambda>t. Some (fst t) \<noteq> refresh_remover st) (timers st) @ [(next_handle st, d)]"
  by (cases "refresh_remover st")
     (auto simp: add_refresh_later_def async_call_later_def cancel_def Let_def intro: filter_cong)

lemma add_refresh_later_fields:
  "refresh_remover (add_refresh_later d st) = Some (next_handle st)"
  "next_handle (add_refresh_later d st) = Suc (next_handle st)"
  "symbols (add_refresh_later d st) = symbols st"
  "data (add_refresh_later d st) = data st"
  "last_update_success (add_refresh_later d st) = last_update_success st"
  "refresh_requests (add_refresh_later d st) = refresh_requests st"
  "fetches (add_refresh_later d st) = fetches st"
  by (cases "refresh_remover st";
      simp add: add_refresh_later_def async_call_later_def cancel_def Let_def)+

lemma one_timer_cases:
  "one_timer st \<longleftrightarrow> timers st = [] \<or> (\<exists>h d. timers st = [(h, d)] \<and> refresh_remover st = Some h)"
  by (auto simp: one_timer_def split: list.splits)

lemma one_timer_add_refresh_later:
  assumes "one_timer st"
  shows "timers (add_refresh_later d st) = [(next_handle st, d)]"
  using assms by (auto simp: one_timer_cases add_refresh_later_timers)

lemma one_timer_after_arming:
  "one_timer st \<Longrightarrow> one_timer (add_refresh_later d st)"
  by (simp add: one_timer_cases one_timer_add_refresh_later add_refresh_later_fields)

lemma one_timer_init: "one_timer (init syms)"
  by (simp add: one_timer_def init_def)

lemma one_timer_add_symbol: "one_timer st \<Longrightarrow> one_timer (snd (add_symbol s st))"
proof -
  assume a: "one_timer st"
  have "one_timer (st\<lparr>symbols := symbols st @ [s]\<rparr>)"
    using a by (simp add: one_timer_cases)
  then show ?thesis
    by (simp add: add_symbol_def one_timer_after_arming a)
qed

lemma one_timer_fire: "one_timer st \<Longrightarrow> one_timer (fire h st)"
  by (auto simp: one_timer_cases fire_def async_request_refresh_later_def async_request_refresh_def)

lemma one_timer_request: "one_timer st \<Longrightarrow> one_timer (async_request_refresh st)"
  by (simp add: one_timer_cases async_request_refresh_def)

lemma async_update_state:
  "snd (async_update c fetched st) = st\<lparr>fetches := Suc (fetches st)\<rparr>"
  by (simp add: async_update_def get_json_def split: sum.splits)

lemma async_update_result:
  "fst (async_update c fetched st) =
     (case fetched of Inl e \<Rightarrow> Inl e | Inr json \<Rightarrow> update_from_json c json)"
  by (simp add: async_update_def get_json_def split: sum.splits)

lemma async_update_with_retry_eq:
  "async_update_with_retry c fetched st =
     (case fst (async_update c fetched st) of
        Inr d \<Rightarrow> (Inr d, st\<lparr>fetches := Suc (fetches st)\<rparr>)
      | Inl e \<Rightarrow> (Inl e, add_refresh_later FAILURE_ASYNC_REQUEST_REFRESH
                           (st\<lparr>fetches := Suc (fetches st)\<rparr>)))"
  using async_update_state [of c fetched st]
  by (cases "async_update c fetched st") (auto simp: async_update_with_retry_def split: sum.splits)

lemma async_refresh_eq:
  "async_refresh c fetched st =
     (case fst (async_update c fetched st) of
        Inr d \<Rightarrow> st\<lparr>fetches := Suc (fetches st), data := Some d, last_update_success := True\<rparr>
      | Inl e \<Rightarrow> (add_refresh_later FAILURE_ASYNC_REQUEST_REFRESH
                    (st\<lparr>fetches := Suc (fetches st)\<rparr>))\<lparr>last_update_success := False\<rparr>)"
  by (simp add: async_refresh_def async_update_with_retry_eq split: sum.splits)

lemma one_timer_async_refresh: "one_timer st \<Longrightarrow> one_timer (async_refresh c fetched st)"
proof -
  assume a: "one_timer st"
  have b: "one_timer (st\<lparr>fetches := Suc (fetches st)\<rparr>)"
    using a by (simp add: one_timer_cases)
  show ?thesis
  proof (cases "fst (async_update c fetched st)")
    case (Inl e)
    have "one_timer (add_refresh_later FAILURE_ASYNC_REQUEST_REFRESH (st\<lparr>fetches := Suc (fetches st)\<rparr>))"
      using b by (rule one_timer_after_arming)
    then show ?thesis using Inl by (simp add: async_refresh_eq one_timer_cases)
  next
    case (Inr d)
    then show ?thesis using a by (simp add: async_refresh_eq one_timer_cases)
  qed
qed

lemma one_timer_apply_event: "one_timer st \<Longrightarrow> one_timer (apply_event c ev st)"
  by (cases ev) (simp_all add: one_timer_add_symbol one_timer_async_refresh one_timer_fire one_timer_request)

lemma one_timer_run: "one_timer st \<Longrightarrow> one_timer (run c events st)"
  unfolding run_def by (induction events arbitrary: st) (simp_all add: one_timer_apply_event)

lemma one_timer_length: "one_timer st \<Longrightarrow> length (timers st) \<le> 1"
  by (auto simp: one_timer_cases)

text \<open>
  C9. At most one retry or warm-up timer is ever outstanding: in every state a
  coordinator reaches from its construction, by any sequence of added symbols, refresh
  attempts, timer firings and refresh requests, at most one timer is live; arming a
  timer there, for any delay, leaves the new timer as the only live one, the earlier
  one having been cancelled; and so do the two operations that arm a timer,
  \<^verbatim>\<open>add_symbol\<close> and \<^verbatim>\<open>_async_update_with_retry\<close>.
\<close>

theorem at_most_one_timer_outstanding:
  "length (timers (run c events (init syms))) \<le> 1 \<and>
   timers (add_refresh_later duration (run c events (init syms))) =
     [(next_handle (run c events (init syms)), duration)] \<and>
   length (timers (snd (add_symbol s (run c events (init syms))))) \<le> 1 \<and>
   length (timers (snd (async_update_with_retry c fetched (run c events (init syms))))) \<le> 1"
proof -
  let ?st = "run c events (init syms)"
  have a: "one_timer ?st" by (simp add: one_timer_run one_timer_init)
  have b: "one_timer (?st\<lparr>fetches := Suc (fetches ?st)\<rparr>)"
    using a by (simp add: one_timer_cases)
  have "length (timers (snd (async_update_with_retry c fetched ?st))) \<le> 1"
    using a one_timer_add_refresh_later [OF b, of FAILURE_ASYNC_REQUEST_REFRESH] one_timer_length [OF a]
    by (simp add: async_update_with_retry_eq split: sum.splits)
  then show ?thesis
    using a one_timer_length [OF a] one_timer_add_refresh_later [OF a]
      one_timer_length [OF one_timer_add_symbol [OF a]]
    by simp
qed

theorem at_most_one_timer_outstanding_witness:
  "timers (add_refresh_later 5
     (run example_const [Refresh (Inr JNull), AddSymbol ''USDEUR=X''] (init [''BABA'']))) = [(2, 5)]"
  using at_most_one_timer_outstanding
    [of example_const "[Refresh (Inr JNull), AddSymbol ''USDEUR=X'']" "[''BABA'']" 5]
  by (simp add: run_def async_refresh_eq async_update_result update_from_json_def
      add_symbol_def add_refresh_later_fields init_def)

section \<open>Adding a symbol\<close>

lemma count_list_distinct:
  "distinct xs \<Longrightarrow> x \<in> set xs \<Longrightarrow> count_list xs x = 1"
  by (induction xs) auto

lemma fire_live:
  "h \<in> fst ` set (timers st) \<Longrightarrow>
   fire h st = st\<lparr>timers := filter (\<lambda>t. fst t \<noteq> h) (timers st),
                  refresh_requests := Suc (refresh_requests st)\<rparr>"
  by (simp add: fire_def async_request_refresh_later_def async_request_refresh_def)

text \<open>
  C8. A symbol that is not tracked yet is appended to the tracked symbols and
  \<^verbatim>\<open>add_symbol\<close> returns true; a one-shot timer is armed for the warm-up delay of
  5 seconds, which is not the failure delay of 20 seconds; when that timer fires it is
  gone and one refresh is requested; \<^verbatim>\<open>add_symbol\<close> itself performs no fetch and
  touches neither the snapshot nor the success flag, and neither does the firing.
\<close>

theorem add_symbol_new_arms_warm_up:
  assumes "symbol \<notin> set (symbols st)"
  shows "fst (add_symbol symbol st) = True \<and>
    get_symbols (snd (add_symbol symbol st)) = symbols st @ [symbol] \<and>
    (next_handle st, 5) \<in> set (timers (snd (add_symbol symbol st))) \<and>
    refresh_remover (snd (add_symbol symbol st)) = Some (next_handle st) \<and>
    DELAY_ASYNC_REQUEST_REFRESH = 5 \<and>
    DELAY_ASYNC_REQUEST_REFRESH \<noteq> FAILURE_ASYNC_REQUEST_REFRESH \<and>
    fetches (snd (add_symbol symbol st)) = fetches st \<and>
    data (snd (add_symbol symbol st)) = data st \<and>
    last_update_success (snd (add_symbol symbol st)) = last_update_success st \<and>
    refresh_requests (snd (add_symbol symbol st)) = refresh_requests st \<and>
    refresh_requests (fire (next_handle st) (snd (add_symbol symbol st))) =
      Suc (refresh_requests st) \<and>
    next_handle st \<notin> fst ` set (timers (fire (next_handle st) (snd (add_symbol symbol st)))) \<and>
    fetches (fire (next_handle st) (snd (add_symbol symbol st))) = fetches st"
proof -
  let ?st1 = "st\<lparr>symbols := symbols st @ [symbol]\<rparr>"
  let ?st' = "add_refresh_later DELAY_ASYNC_REQUEST_REFRESH ?st1"
  have eq: "add_symbol symbol st = (True, ?st')"
    using assms by (simp add: add_symbol_def)
  have live: "next_handle st \<in> fst ` set (timers ?st')"
    by (simp add: add_refresh_later_timers)
  have t: "(next_handle st, 5) \<in> set (timers ?st')"
    by (simp add: add_refresh_later_timers DELAY_ASYNC_REQUEST_REFRESH_def)
  have f: "fire (next_handle st) ?st' =
      ?st'\<lparr>timers := filter (\<lambda>t. fst t \<noteq> next_handle st) (timers ?st'),
            refresh_requests := Suc (refresh_requests ?st')\<rparr>"
    using live by (rule fire_live)
  have gone: "next_handle st \<notin> fst ` set (timers (fire (next_handle st) ?st'))"
    unfolding f by auto
  have rr: "refresh_requests (fire (next_handle st) ?st') = Suc (refresh_requests st)"
    by (simp add: f add_refresh_later_fields)
  have fe: "fetches (fire (next_handle st) ?st') = fetches st"
    by (simp add: f add_refresh_later_fields)
  have d: "DELAY_ASYNC_REQUEST_REFRESH = 5"
    "DELAY_ASYNC_REQUEST_REFRESH \<noteq> FAILURE_ASYNC_REQUEST_REFRESH"
    by (simp_all add: DELAY_ASYNC_REQUEST_REFRESH_def FAILURE_ASYNC_REQUEST_REFRESH_def)
  show ?thesis
    unfolding eq fst_conv snd_conv
    using t gone rr fe d
    by (simp add: get_symbols_def add_refresh_later_fields)
qed

theorem add_symbol_new_arms_warm_up_witness:
  "''USDEUR=X'' \<notin> set (symbols (init [''BABA''])) \<and>
   add_symbol ''USDEUR=X'' (init [''BABA'']) =
     (True, (init [''BABA''])\<lparr>symbols := [''BABA'', ''USDEUR=X''], refresh_remover := Some 0,
              timers := [(0, 5)], next_handle := 1\<rparr>) \<and>
   refresh_requests (fire 0 (snd (add_symbol ''USDEUR=X'' (init [''BABA''])))) = 1"
  using add_symbol_new_arms_warm_up [of "''USDEUR=X''" "init [''BABA'']"]
  by (simp add: init_def add_symbol_def add_refresh_later_def async_call_later_def
      DELAY_ASYNC_REQUEST_REFRESH_def)

text \<open>
  C6, as the code has it. \<^verbatim>\<open>add_symbol\<close> compares and stores the identifier as it is
  spelled, without any case normalisation: an identifier that is tracked in this very
  spelling is refused, \<^verbatim>\<open>add_symbol\<close> returns false and the coordinator is unchanged;
  any other identifier is appended as spelled and \<^verbatim>\<open>add_symbol\<close> returns true. So
  adding the same spelling again returns false and changes nothing, and tracked symbols
  without repetitions stay so and hold exactly one copy of the added spelling.
\<close>

theorem add_symbol_exact_spelling:
  "(symbol \<in> set (symbols st) \<longrightarrow> add_symbol symbol st = (False, st)) \<and>
   (symbol \<notin> set (symbols st) \<longrightarrow>
      fst (add_symbol symbol st) = True \<and>
      get_symbols (snd (add_symbol symbol st)) = symbols st @ [symbol]) \<and>
   add_symbol symbol (snd (add_symbol symbol st)) = (False, snd (add_symbol symbol st)) \<and>
   (distinct (symbols st) \<longrightarrow>
      distinct (get_symbols (snd (add_symbol symbol st))) \<and>
      count_list (get_symbols (snd (add_symbol symbol st))) symbol = 1)"
proof -
  have sym: "symbols (snd (add_symbol symbol st)) =
      (if symbol \<in> set (symbols st) then symbols st else symbols st @ [symbol])"
    by (simp add: add_symbol_def add_refresh_later_fields)
  have again: "add_symbol symbol (snd (add_symbol symbol st)) = (False, snd (add_symbol symbol st))"
    using sym by (simp add: add_symbol_def [of symbol "snd (add_symbol symbol st)"])
  have cnt: "distinct (symbols st) \<Longrightarrow> symbol \<in> set (symbols st) \<Longrightarrow>
      count_list (symbols st) symbol = 1"
    by (rule count_list_distinct)
  have cnt0: "symbol \<notin> set (symbols st) \<Longrightarrow> count_list (symbols st) symbol = 0"
    by (simp add: count_list_0_iff)
  have c1: "symbol \<in> set (symbols st) \<longrightarrow> add_symbol symbol st = (False, st)"
    by (simp add: add_symbol_def)
  have c2: "symbol \<notin> set (symbols st) \<longrightarrow>
      fst (add_symbol symbol st) = True \<and>
      get_symbols (snd (add_symbol symbol st)) = symbols st @ [symbol]"
    by (simp add: get_symbols_def sym) (simp add: add_symbol_def)
  have c4: "distinct (symbols st) \<longrightarrow>
      distinct (get_symbols (snd (add_symbol symbol st))) \<and>
      count_list (get_symbols (snd (add_symbol symbol st))) symbol = 1"
    using cnt cnt0 by (simp add: get_symbols_def sym)
  show ?thesis
    using c1 c2 again c4 by blast
qed

theorem add_symbol_exact_spelling_witness:
  "add_symbol ''BABA'' (init [''BABA'']) = (False, init [''BABA'']) \<and>
   get_symbols (snd (add_symbol ''XYZ'' (init [''BABA'']))) = [''BABA'', ''XYZ''] \<and>
   count_list (get_symbols (snd (add_symbol ''XYZ'' (init [''BABA''])))) ''XYZ'' = 1"
  using add_symbol_exact_spelling [of "''BABA''" "init [''BABA'']"]
    add_symbol_exact_spelling [of "''XYZ''" "init [''BABA'']"]
  by (simp add: init_def)

text \<open>
  C6 as stated fails: with \<^verbatim>\<open>BABA\<close> tracked, adding the differently-cased spelling
  \<^verbatim>\<open>baba\<close> returns true and the tracked symbols then hold both spellings, the new one
  in lower case.
\<close>

theorem add_symbol_other_case_counterexample:
  "fst (add_symbol ''baba'' (init [''BABA''])) = True \<and>
   get_symbols (snd (add_symbol ''baba'' (init [''BABA'']))) = [''BABA'', ''baba'']"
  by (simp add: add_symbol_def init_def get_symbols_def add_refresh_later_fields)

section \<open>Parsing one quote\<close>

lemma fold_upd_lookup:
  "fold (\<lambda>x m. m(g x \<mapsto> f (g x))) xs m0 k = (if k \<in> g ` set xs then Some (f k) else m0 k)"
  by (induction xs arbitrary: m0) auto

lemma parse_symbol_data_lookup:
  "parse_symbol_data c sd k =
     (if k \<in> set (STRING_DATA_KEYS c) then Some (dict_get sd k JNull)
      else if k \<in> fst ` set (NUMERIC_DATA_KEYS c) then Some (dict_get sd k (JInt 0))
      else None)"
  using fold_upd_lookup [of fst "\<lambda>k. dict_get sd k (JInt 0)" "NUMERIC_DATA_KEYS c" Map.empty k]
        fold_upd_lookup [of "\<lambda>k. k" "\<lambda>k. dict_get sd k JNull" "STRING_DATA_KEYS c" _ k]
  by (simp add: parse_symbol_data_def Let_def)

lemma parse_symbol_data_schema:
  "parse_symbol_data c sd k \<noteq> None \<longleftrightarrow> k \<in> schema c"
  by (auto simp: parse_symbol_data_lookup schema_def)

text \<open>
  C4. The quote record built from an element maps every numeric field name of the
  schema (one that is not also listed as a string field) to the element's value, or to
  0 when the element lacks it, and every string field name to the element's value, or
  to \<^verbatim>\<open>None\<close> when the element lacks it; it has no other key, and it does not depend
  on the keys of the element that are outside the schema.
\<close>

theorem parse_symbol_data_fields:
  "(key \<in> fst ` set (NUMERIC_DATA_KEYS c) \<and> key \<notin> set (STRING_DATA_KEYS c) \<longrightarrow>
      parse_symbol_data c symbol_data key =
        Some (case map_of symbol_data key of Some v \<Rightarrow> v | None \<Rightarrow> JInt 0)) \<and>
   (key \<in> set (STRING_DATA_KEYS c) \<longrightarrow>
      parse_symbol_data c symbol_data key =
        Some (case map_of symbol_data key of Some v \<Rightarrow> v | None \<Rightarrow> JNull)) \<and>
   dom (parse_symbol_data c symbol_data) = schema c \<and>
   ((\<forall>k \<in> schema c. map_of symbol_data k = map_of other k) \<longrightarrow>
      parse_symbol_data c symbol_data = parse_symbol_data c other)"
proof -
  have d: "dom (parse_symbol_data c symbol_data) = schema c"
    using parse_symbol_data_schema [of c symbol_data] by (auto simp: dom_def)
  have e: "parse_symbol_data c symbol_data = parse_symbol_data c other"
    if a: "\<forall>k \<in> schema c. map_of symbol_data k = map_of other k"
  proof (rule ext)
    fix k
    show "parse_symbol_data c symbol_data k = parse_symbol_data c other k"
      using a by (auto simp: parse_symbol_data_lookup schema_def dict_get_def)
  qed
  show ?thesis
    using d e by (auto simp: parse_symbol_data_lookup dict_get_def split: option.splits)
qed

theorem parse_symbol_data_fields_witness:
  "parse_symbol_data example_const
     [(''symbol'', JStr ''BABA''), (''regularMarketPrice'', JFloat 232.73), (''bid'', JInt 7)]
     ''regularMarketPrice'' = Some (JFloat 232.73) \<and>
   parse_symbol_data example_const
     [(''symbol'', JStr ''BABA''), (''regularMarketPrice'', JFloat 232.73), (''bid'', JInt 7)]
     ''regularMarketChange'' = Some (JInt 0) \<and>
   parse_symbol_data example_const
     [(''symbol'', JStr ''BABA''), (''regularMarketPrice'', JFloat 232.73), (''bid'', JInt 7)]
     ''currency'' = Some JNull \<and>
   parse_symbol_data example_const
     [(''symbol'', JStr ''BABA''), (''regularMarketPrice'', JFloat 232.73), (''bid'', JInt 7)] =
   parse_symbol_data example_const [(''regularMarketPrice'', JFloat 232.73)]"
proof -
  let ?sd = "[(''symbol'', JStr ''BABA''), (''regularMarketPrice'', JFloat 232.73),
              (''bid'', JInt 7)]"
  let ?other = "[(''regularMarketPrice'', JFloat 232.73)]"
  have n1: "''regularMarketPrice'' \<in> fst ` set (NUMERIC_DATA_KEYS example_const) \<and>
      ''regularMarketPrice'' \<notin> set (STRING_DATA_KEYS example_const)"
    by (simp add: example_const_def)
  have n2: "''regularMarketChange'' \<in> fst ` set (NUMERIC_DATA_KEYS example_const) \<and>
      ''regularMarketChange'' \<notin> set (STRING_DATA_KEYS example_const)"
    by (simp add: example_const_def)
  have s1: "''currency'' \<in> set (STRING_DATA_KEYS example_const)"
    by (simp add: example_const_def)
  have same: "\<forall>k \<in> schema example_const. map_of ?sd k = map_of ?other k"
    by (simp add: schema_def example_const_def)
  have a: "parse_symbol_data example_const ?sd ''regularMarketPrice'' = Some (JFloat 232.73)"
    using parse_symbol_data_fields [of "''regularMarketPrice''" example_const ?sd ?other] n1
    by simp
  have b: "parse_symbol_data example_const ?sd ''regularMarketChange'' = Some (JInt 0)"
    using parse_symbol_data_fields [of "''regularMarketChange''" example_const ?sd ?other] n2
    by simp
  have c: "parse_symbol_data example_const ?sd ''currency'' = Some JNull"
    using parse_symbol_data_fields [of "''currency''" example_const ?sd ?other] s1
    by simp
  have d: "parse_symbol_data example_const ?sd = parse_symbol_data example_const ?other"
    using parse_symbol_data_fields [of "''currency''" example_const ?sd ?other] same
    by blast
  show ?thesis
    using a b c d by blast
qed

section \<open>The validation of the document\<close>

lemma dict_key_error: "dict_key v = Inl e \<Longrightarrow> e = TypeError"
  by (cases v) simp_all

lemma update_loop_not_UpdateFailed: "update_loop c items acc \<noteq> Inl (UpdateFailed msg)"
proof (induction items arbitrary: acc)
  case Nil
  show ?case by simp
next
  case (Cons x xs)
  show ?case
  proof (cases x)
    case (JObj symbol_data)
    show ?thesis
      using Cons.IH
      by (auto simp: JObj bind_def Let_def split: option.splits sum.splits dest: dict_key_error)
  qed simp_all
qed

lemma for_result_not_UpdateFailed: "for_result c result \<noteq> Inl (UpdateFailed msg)"
  by (cases result) (simp_all add: update_loop_not_UpdateFailed)

lemma update_from_json_violation:
  assumes "object_shaped json"
  shows "update_from_json c json =
     (case violation json of
        Some v \<Rightarrow> Inl (UpdateFailed (diagnostic v))
      | None \<Rightarrow> for_result c (the (member (the (member json ''quoteResponse'')) ''result'')))"
  using assms
  by (auto simp: object_shaped_def update_from_json_def violation_def result_violation_def
        member_def bind_def
      split: json.splits option.splits)

lemma py_contains_cases:
  "(py_contains key j = Inl TypeError \<and> member j key = None) \<or>
   (py_contains key j = Inr False \<and> member j key = None) \<or>
   (py_contains key j = Inr True \<and>
      ((\<exists>v. py_getitem j key = Inr v \<and> member j key = Some v) \<or>
       (py_getitem j key = Inl TypeError \<and> member j key = None)))"
  by (cases j) (auto simp: member_def)

lemma update_from_json_UpdateFailed:
  assumes "update_from_json c json = Inl (UpdateFailed msg)"
  shows "\<exists>v. violation json = Some v \<and> msg = diagnostic v"
proof (cases "json = JNull")
  case True
  with assms show ?thesis by (simp add: update_from_json_def violation_def)
next
  case n: False
  from py_contains_cases [of "''quoteResponse''" json] assms n
  consider "member json ''quoteResponse'' = None"
      "update_from_json c json =
         Inl (UpdateFailed (JStr ''Data invalid, 'quoteResponse' not found.''))"
    | qr where "member json ''quoteResponse'' = Some qr"
      "py_contains ''quoteResponse'' json = Inr True" "py_getitem json ''quoteResponse'' = Inr qr"
    by (auto simp: update_from_json_def bind_def)
  then show ?thesis
  proof cases
    case 1
    with assms n show ?thesis by (simp add: violation_def)
  next
    case (2 qr)
    note q = 2
    from py_contains_cases [of "''error''" qr] py_contains_cases [of "''result''" qr] assms n q
    show ?thesis
      by (auto simp: update_from_json_def bind_def violation_def result_violation_def
          for_result_not_UpdateFailed split: if_splits)
  qed
qed

lemma update_from_json_violated:
  assumes "violation json = Some v"
  shows "update_from_json c json = Inl (UpdateFailed (diagnostic v)) \<or>
         update_from_json c json = Inl TypeError"
proof (cases "json = JNull")
  case True
  with assms show ?thesis by (auto simp: update_from_json_def violation_def)
next
  case n: False
  show ?thesis
  proof (cases "member json ''quoteResponse''")
    case None
    with py_contains_cases [of "''quoteResponse''" json] assms n show ?thesis
      by (auto simp: update_from_json_def bind_def violation_def)
  next
    case (Some qr)
    with py_contains_cases [of "''quoteResponse''" json]
    have g: "py_contains ''quoteResponse'' json = Inr True" "py_getitem json ''quoteResponse'' = Inr qr"
      by auto
    from py_contains_cases [of "''error''" qr] py_contains_cases [of "''result''" qr] assms n Some g
    show ?thesis
      by (auto simp: update_from_json_def bind_def violation_def result_violation_def
          split: if_splits option.splits)
  qed
qed

text \<open>
  C3, as the code has it. For every fetched document, the refresh attempt raises
  \<^verbatim>\<open>UpdateFailed\<close> only if the document commits one of the five violations (no
  data, missing container, embedded error, missing result list, null result list), and
  the diagnostic is then that of the first violation in this order, the embedded
  error's being the upstream error value itself. Every document that commits a violation
  makes the attempt fail: with that diagnostic when the document is \<^verbatim>\<open>None\<close> or an
  object whose \<^verbatim>\<open>quoteResponse\<close>, when present, is an object, and with that
  diagnostic or a \<^verbatim>\<open>TypeError\<close> otherwise. The four fixed diagnostics are pairwise
  distinct. Whether the attempt fails with another exception is not decided by the
  violations.
\<close>

theorem validation_violations:
  "(\<forall>msg. fst (async_update c (Inr json) st) = Inl (UpdateFailed msg) \<longrightarrow>
      (\<exists>v. violation json = Some v \<and> msg = diagnostic v)) \<and>
   (\<forall>v. violation json = Some v \<longrightarrow>
      fst (async_update c (Inr json) st) = Inl (UpdateFailed (diagnostic v)) \<or>
      fst (async_update c (Inr json) st) = Inl TypeError) \<and>
   (\<forall>v. object_shaped json \<and> violation json = Some v \<longrightarrow>
      fst (async_update c (Inr json) st) = Inl (UpdateFailed (diagnostic v))) \<and>
   distinct [diagnostic NoData, diagnostic MissingContainer,
             diagnostic MissingResultList, diagnostic NullResultList]"
proof -
  have r: "fst (async_update c (Inr json) st) = update_from_json c json"
    by (simp add: async_update_result)
  have a: "\<forall>msg. update_from_json c json = Inl (UpdateFailed msg) \<longrightarrow>
      (\<exists>v. violation json = Some v \<and> msg = diagnostic v)"
    using update_from_json_UpdateFailed [of c json] by blast
  have b: "\<forall>v. violation json = Some v \<longrightarrow>
      update_from_json c json = Inl (UpdateFailed (diagnostic v)) \<or>
      update_from_json c json = Inl TypeError"
    using update_from_json_violated [of json _ c] by blast
  have s: "\<forall>v. object_shaped json \<and> violation json = Some v \<longrightarrow>
      update_from_json c json = Inl (UpdateFailed (diagnostic v))"
    by (simp add: update_from_json_violation)
  have d: "distinct [diagnostic NoData, diagnostic MissingContainer,
             diagnostic MissingResultList, diagnostic NullResultList]"
    by simp
  show ?thesis
    unfolding r using a b s d by (intro conjI)
qed

theorem validation_violations_witness:
  "object_shaped rate_limited_payload \<and>
   violation rate_limited_payload = Some (EmbeddedError (JStr ''rate limited'')) \<and>
   fst (async_update example_const (Inr rate_limited_payload) (init [''BABA''])) =
     Inl (UpdateFailed (JStr ''rate limited'')) \<and>
   violation (JList []) = Some MissingContainer \<and>
   fst (async_update example_const (Inr (JList [])) (init [''BABA''])) =
     Inl (UpdateFailed (JStr ''Data invalid, 'quoteResponse' not found.''))"
proof -
  have s: "object_shaped rate_limited_payload"
    by (simp add: object_shaped_def rate_limited_payload_def)
  have v: "violation rate_limited_payload = Some (EmbeddedError (JStr ''rate limited''))"
    by (simp add: violation_def member_def rate_limited_payload_def)
  have w: "violation (JList []) = Some MissingContainer"
    by (simp add: violation_def member_def)
  have u: "fst (async_update example_const (Inr (JList [])) (init [''BABA''])) =
      Inl (UpdateFailed (JStr ''Data invalid, 'quoteResponse' not found.''))"
    by (simp add: async_update_result update_from_json_def bind_def)
  have x: "fst (async_update example_const (Inr rate_limited_payload) (init [''BABA''])) =
      Inl (UpdateFailed (diagnostic (EmbeddedError (JStr ''rate limited''))))"
    using validation_violations [of example_const rate_limited_payload "init [''BABA'']"] s v
    by blast
  have y: "\<exists>v. violation (JList []) = Some v \<and>
      JStr ''Data invalid, 'quoteResponse' not found.'' = diagnostic v"
    using validation_violations [of example_const "JList []" "init [''BABA'']"] u
    by blast
  show ?thesis
    using s v w u x by simp
qed

text \<open>
  C3 as stated fails: a document with none of the five violations, whose only element
  has no \<^verbatim>\<open>symbol\<close>, makes the refresh attempt fail, with a \<^verbatim>\<open>KeyError\<close>.
\<close>

theorem failure_without_violation_counterexample:
  "violation payload_without_symbol = None \<and>
   fst (async_update example_const (Inr payload_without_symbol) (init [''BABA''])) =
     Inl (KeyError ''symbol'')"
  by (simp add: violation_def result_violation_def member_def payload_without_symbol_def
      async_update_result update_from_json_def bind_def)

section \<open>The refresh attempt\<close>

lemma update_loop_well_formed:
  assumes "list_all well_formed_element items" and "DATA_REGULAR_MARKET_PRICE c \<in> schema c"
  shows "update_loop c items acc = Inr (acc ++ map_of (rev (map (entry c) items)))"
  using assms(1)
proof (induction items arbitrary: acc)
  case Nil
  show ?case by simp
next
  case (Cons x xs)
  from Cons.prems obtain symbol_data s where
    x: "x = JObj symbol_data" and s: "map_of symbol_data ''symbol'' = Some (JStr s)"
    by (auto simp: well_formed_element_def split: json.splits option.splits)
  obtain price where p: "parse_symbol_data c symbol_data (DATA_REGULAR_MARKET_PRICE c) = Some price"
    using assms(2) parse_symbol_data_schema [of c symbol_data "DATA_REGULAR_MARKET_PRICE c"]
    by auto
  have e: "entry c x = (KStr s, parse_symbol_data c symbol_data)"
    by (simp add: entry_def x s)
  have "update_loop c (x # xs) acc =
      update_loop c xs (acc(KStr s \<mapsto> parse_symbol_data c symbol_data))"
    by (simp add: x s p bind_def Let_def)
  also have "\<dots> = Inr (acc(KStr s \<mapsto> parse_symbol_data c symbol_data) ++
      map_of (rev (map (entry c) xs)))"
    using Cons.prems by (intro Cons.IH) simp
  also have "acc(KStr s \<mapsto> parse_symbol_data c symbol_data) ++ map_of (rev (map (entry c) xs)) =
      acc ++ map_of (rev (map (entry c) (x # xs)))"
    by (simp add: e map_add_assoc [symmetric])
  finally show ?case .
qed

lemma well_formed_payload_result:
  assumes "well_formed_payload json"
  obtains items where "result_items json = Some items"
    and "list_all well_formed_element items"
    and "update_from_json c json = for_result c (JList items)"
proof -
  from assms obtain items where i: "result_items json = Some items"
    and w: "list_all well_formed_element items"
    by (auto simp: well_formed_payload_def split: option.splits)
  from assms have o: "object_shaped json" and v: "violation json = None"
    by (simp_all add: well_formed_payload_def)
  have "the (member (the (member json ''quoteResponse'')) ''result'') = JList items"
    using i by (auto simp: result_items_def split: option.splits json.splits)
  then have "update_from_json c json = for_result c (JList items)"
    by (simp add: update_from_json_violation [OF o] v)
  with i w show ?thesis by (rule that)
qed

text \<open>
  C2, as the code has it. On success \<^verbatim>\<open>_async_update_with_retry\<close> returns the
  mapping it built and changes nothing of the coordinator but the count of fetches; the
  caller stores that mapping as the snapshot and sets the success flag. A pending timer
  stays armed and the timer slot keeps its handle. On a
  well-formed document (no violation, every element of the result list an object with a
  str \<^verbatim>\<open>symbol\<close>), with the logged price field in the schema, the attempt does succeed,
  and the mapping takes each symbol to the quote record of the last element that
  carries it, whatever the snapshot held before.
\<close>

theorem successful_refresh_replaces_snapshot:
  "(fst (async_update c fetched st) = Inr d \<longrightarrow>
      async_update_with_retry c fetched st = (Inr d, st\<lparr>fetches := Suc (fetches st)\<rparr>) \<and>
      async_refresh c fetched st =
        st\<lparr>fetches := Suc (fetches st), data := Some d, last_update_success := True\<rparr> \<and>
      timers (async_refresh c fetched st) = timers st \<and>
      refresh_remover (async_refresh c fetched st) = refresh_remover st) \<and>
   (well_formed_payload json \<and> DATA_REGULAR_MARKET_PRICE c \<in> schema c \<longrightarrow>
      (\<exists>items. result_items json = Some items \<and>
         fst (async_update c (Inr json) st) = Inr (map_of (rev (map (entry c) items)))))"
proof -
  have a: "fst (async_update c fetched st) = Inr d \<longrightarrow>
      async_update_with_retry c fetched st = (Inr d, st\<lparr>fetches := Suc (fetches st)\<rparr>) \<and>
      async_refresh c fetched st =
        st\<lparr>fetches := Suc (fetches st), data := Some d, last_update_success := True\<rparr> \<and>
      timers (async_refresh c fetched st) = timers st \<and>
      refresh_remover (async_refresh c fetched st) = refresh_remover st"
    by (simp add: async_refresh_eq async_update_with_retry_eq)
  have b: "\<exists>items. result_items json = Some items \<and>
         fst (async_update c (Inr json) st) = Inr (map_of (rev (map (entry c) items)))"
    if w: "well_formed_payload json" and p: "DATA_REGULAR_MARKET_PRICE c \<in> schema c"
  proof -
    from w obtain items where i: "result_items json = Some items"
      and l: "list_all well_formed_element items"
      and u: "update_from_json c json = for_result c (JList items)"
      by (rule well_formed_payload_result)
    have "fst (async_update c (Inr json) st) = Inr (map_of (rev (map (entry c) items)))"
      by (simp add: async_update_result u update_loop_well_formed [OF l p])
    with i show ?thesis by blast
  qed
  show ?thesis using a b by blast
qed

lemma example_payload_well_formed: "well_formed_payload example_payload"
  by (simp add: well_formed_payload_def object_shaped_def violation_def result_violation_def
      member_def result_items_def well_formed_element_def example_payload_def)

lemma example_payload_items:
  "result_items example_payload =
     Some [JObj [(''symbol'', JStr ''BABA''),
                 (''regularMarketPrice'', JFloat 232.73),
                 (''regularMarketChange'', JFloat (-5.66)),
                 (''twoHundredDayAverageChangePercent'', JFloat (-0.1261))]]"
  by (simp add: result_items_def member_def example_payload_def)

lemma example_payload_update:
  assumes "DATA_REGULAR_MARKET_PRICE c = ''regularMarketPrice''"
    and "''regularMarketPrice'' \<in> schema c"
  shows "fst (async_update c (Inr example_payload) st) =
     Inr [KStr ''BABA'' \<mapsto> parse_symbol_data c
            [(''symbol'', JStr ''BABA''),
             (''regularMarketPrice'', JFloat 232.73),
             (''regularMarketChange'', JFloat (-5.66)),
             (''twoHundredDayAverageChangePercent'', JFloat (-0.1261))]]"
proof -
  obtain price where "parse_symbol_data c
            [(''symbol'', JStr ''BABA''),
             (''regularMarketPrice'', JFloat 232.73),
             (''regularMarketChange'', JFloat (-5.66)),
             (''twoHundredDayAverageChangePercent'', JFloat (-0.1261))]
            ''regularMarketPrice'' = Some price"
    using assms(2) parse_symbol_data_schema [of c _ "''regularMarketPrice''"] by auto
  then show ?thesis
    by (simp add: async_update_result example_payload_def update_from_json_def bind_def
        Let_def assms(1))
qed

lemma example_const_price:
  "DATA_REGULAR_MARKET_PRICE example_const = ''regularMarketPrice''"
  "''regularMarketPrice'' \<in> schema example_const"
  by (simp_all add: schema_def example_const_def)

theorem successful_refresh_replaces_snapshot_witness:
  "well_formed_payload example_payload \<and>
   DATA_REGULAR_MARKET_PRICE example_const \<in> schema example_const \<and>
   async_refresh example_const (Inr example_payload)
       (snd (add_symbol ''USDEUR=X'' (init [''BABA''])))
     = (snd (add_symbol ''USDEUR=X'' (init [''BABA''])))
         \<lparr>fetches := 1,
          data := Some (map_of [entry example_const
            (JObj [(''symbol'', JStr ''BABA''),
                   (''regularMarketPrice'', JFloat 232.73),
                   (''regularMarketChange'', JFloat (-5.66)),
                   (''twoHundredDayAverageChangePercent'', JFloat (-0.1261))])]),
          last_update_success := True\<rparr>"
proof -
  let ?st = "snd (add_symbol ''USDEUR=X'' (init [''BABA'']))"
  have p: "DATA_REGULAR_MARKET_PRICE example_const \<in> schema example_const"
    by (simp add: schema_def example_const_def)
  have f: "fetches ?st = 0"
    by (simp add: add_symbol_def add_refresh_later_fields init_def)
  from successful_refresh_replaces_snapshot
    [of example_const "Inr example_payload" ?st _ example_payload]
    example_payload_well_formed p
  show ?thesis
    by (auto simp: example_payload_items f)
qed

text \<open>
  C2 as stated fails: after a failed attempt has armed the retry timer, a successful
  attempt sets the success flag and leaves that timer outstanding.
\<close>

theorem success_keeps_timer_counterexample:
  "timers (snd (async_update_with_retry example_const (Inr JNull) (init [''BABA'']))) =
     [(0, 20)] \<and>
   timers (snd (async_update_with_retry example_const (Inr example_payload)
     (snd (async_update_with_retry example_const (Inr JNull) (init [''BABA'']))))) =
     [(0, 20)] \<and>
   last_update_success (async_refresh example_const (Inr example_payload)
     (snd (async_update_with_retry example_const (Inr JNull) (init [''BABA''])))) = True \<and>
   timers (async_refresh example_const (Inr example_payload)
     (snd (async_update_with_retry example_const (Inr JNull) (init [''BABA''])))) =
     [(0, 20)]"
proof -
  let ?st = "snd (async_update_with_retry example_const (Inr JNull) (init [''BABA'']))"
  have t: "timers ?st = [(0, 20)]"
    by (simp add: async_update_with_retry_eq async_update_result update_from_json_def
        add_refresh_later_timers init_def FAILURE_ASYNC_REQUEST_REFRESH_def)
  obtain d where d: "fst (async_update example_const (Inr example_payload) ?st) = Inr d"
    by (simp add: example_payload_update [OF example_const_price])
  have w: "timers (snd (async_update_with_retry example_const (Inr example_payload) ?st)) =
      [(0, 20)]"
    using t d by (simp add: async_update_with_retry_eq [of _ "Inr example_payload"])
  have r: "last_update_success (async_refresh example_const (Inr example_payload) ?st) = True \<and>
      timers (async_refresh example_const (Inr example_payload) ?st) = [(0, 20)]"
    using t d by (simp add: async_refresh_eq [of _ "Inr example_payload"])
  show ?thesis
    using t w r by (intro conjI) simp_all
qed

text \<open>
  C5. With \<^verbatim>\<open>regularMarketPrice\<close> a field of the schema and the price field that is
  logged, a refresh attempt on the document of the spec's example succeeds: the snapshot
  holds a record for \<^verbatim>\<open>BABA\<close> whose \<^verbatim>\<open>regularMarketPrice\<close> is 232.73, and the success
  flag is true.
\<close>

theorem example_payload_snapshot:
  assumes "DATA_REGULAR_MARKET_PRICE c = ''regularMarketPrice''"
    and "''regularMarketPrice'' \<in> schema c"
  shows "\<exists>d r. fst (async_update_with_retry c (Inr example_payload) st) = Inr d \<and>
      data (async_refresh c (Inr example_payload) st) = Some d \<and>
      d (KStr ''BABA'') = Some r \<and>
      r ''regularMarketPrice'' = Some (JFloat 232.73) \<and>
      last_update_success (async_refresh c (Inr example_payload) st) = True"
proof -
  let ?sd = "[(''symbol'', JStr ''BABA''),
              (''regularMarketPrice'', JFloat 232.73),
              (''regularMarketChange'', JFloat (-5.66)),
              (''twoHundredDayAverageChangePercent'', JFloat (-0.1261))]"
  have price: "parse_symbol_data c ?sd ''regularMarketPrice'' = Some (JFloat 232.73)"
    using assms(2) by (auto simp: parse_symbol_data_lookup schema_def dict_get_def)
  have u: "fst (async_update c (Inr example_payload) st) =
      Inr [KStr ''BABA'' \<mapsto> parse_symbol_data c ?sd]"
    by (rule example_payload_update [OF assms])
  show ?thesis
    using price by (simp add: async_refresh_eq async_update_with_retry_eq u)
qed

theorem example_payload_snapshot_witness:
  "DATA_REGULAR_MARKET_PRICE example_const = ''regularMarketPrice'' \<and>
   ''regularMarketPrice'' \<in> schema example_const \<and>
   (\<exists>d r. data (async_refresh example_const (Inr example_payload) (init [''BABA''])) = Some d \<and>
      d (KStr ''BABA'') = Some r \<and>
      r ''regularMarketPrice'' = Some (JFloat 232.73) \<and>
      last_update_success (async_refresh example_const (Inr example_payload) (init [''BABA''])) =
        True)"
proof -
  have a: "DATA_REGULAR_MARKET_PRICE example_const = ''regularMarketPrice''"
    by (simp add: example_const_def)
  have b: "''regularMarketPrice'' \<in> schema example_const"
    by (simp add: schema_def example_const_def)
  show ?thesis
    using example_payload_snapshot [OF a b, of "init [''BABA'']"] a b by blast
qed

text \<open>
  C1. A refresh attempt fails when the fetch raises or when the update raises on the
  fetched document. Then \<^verbatim>\<open>_async_update_with_retry\<close> raises the same exception
  again, a one-shot timer is armed for the failure delay of 20 seconds, whose firing
  requests a refresh, and the snapshot is the one held before; the caller of the update
  method clears the success flag and keeps that snapshot.
\<close>

theorem failed_refresh_arms_retry:
  assumes "fetched = Inl e \<or> (\<exists>json. fetched = Inr json \<and> update_from_json c json = Inl e)"
  shows "fst (async_update_with_retry c fetched st) = Inl e \<and>
    (next_handle st, 20) \<in> set (timers (snd (async_update_with_retry c fetched st))) \<and>
    refresh_remover (snd (async_update_with_retry c fetched st)) = Some (next_handle st) \<and>
    FAILURE_ASYNC_REQUEST_REFRESH = 20 \<and>
    data (snd (async_update_with_retry c fetched st)) = data st \<and>
    data (async_refresh c fetched st) = data st \<and>
    last_update_success (async_refresh c fetched st) = False \<and>
    (next_handle st, 20) \<in> set (timers (async_refresh c fetched st)) \<and>
    refresh_requests (fire (next_handle st) (async_refresh c fetched st)) =
      Suc (refresh_requests st)"
proof -
  let ?st1 = "st\<lparr>fetches := Suc (fetches st)\<rparr>"
  let ?st2 = "add_refresh_later FAILURE_ASYNC_REQUEST_REFRESH ?st1"
  have u: "fst (async_update c fetched st) = Inl e"
    using assms by (auto simp: async_update_result)
  have w: "async_update_with_retry c fetched st = (Inl e, ?st2)"
    by (simp add: async_update_with_retry_eq u)
  have r: "async_refresh c fetched st = ?st2\<lparr>last_update_success := False\<rparr>"
    by (simp add: async_refresh_eq u)
  have t: "(next_handle st, 20) \<in> set (timers ?st2)"
    by (simp add: add_refresh_later_timers FAILURE_ASYNC_REQUEST_REFRESH_def)
  have live: "next_handle st \<in> fst ` set (timers (?st2\<lparr>last_update_success := False\<rparr>))"
    by (simp add: add_refresh_later_timers)
  have f: "refresh_requests (fire (next_handle st) (?st2\<lparr>last_update_success := False\<rparr>)) =
      Suc (refresh_requests st)"
    by (simp add: fire_live [OF live] add_refresh_later_fields)
  have d: "FAILURE_ASYNC_REQUEST_REFRESH = 20"
    by (simp add: FAILURE_ASYNC_REQUEST_REFRESH_def)
  show ?thesis
    unfolding w r fst_conv snd_conv
    using t f d by (simp add: add_refresh_later_fields)
qed

theorem failed_refresh_arms_retry_witness:
  "update_from_json example_const rate_limited_payload =
     Inl (UpdateFailed (JStr ''rate limited'')) \<and>
   fst (async_update_with_retry example_const (Inr rate_limited_payload)
      (async_refresh example_const (Inr example_payload) (init [''BABA''])))
     = Inl (UpdateFailed (JStr ''rate limited'')) \<and>
   data (async_refresh example_const (Inr rate_limited_payload)
      (async_refresh example_const (Inr example_payload) (init [''BABA''])))
     = data (async_refresh example_const (Inr example_payload) (init [''BABA''])) \<and>
   last_update_success (async_refresh example_const (Inr rate_limited_payload)
      (async_refresh example_const (Inr example_payload) (init [''BABA''])))
     = False \<and>
   (0, 20) \<in> set (timers (async_refresh example_const (Inr rate_limited_payload)
      (async_refresh example_const (Inr example_payload) (init [''BABA'']))))"
proof -
  let ?st = "async_refresh example_const (Inr example_payload) (init [''BABA''])"
  have u: "update_from_json example_const rate_limited_payload =
      Inl (UpdateFailed (JStr ''rate limited''))"
    by (simp add: update_from_json_def bind_def rate_limited_payload_def)
  have n: "next_handle ?st = 0"
    by (simp add: async_refresh_eq example_payload_update [OF example_const_price] init_def)
  have h: "Inr rate_limited_payload = Inl (UpdateFailed (JStr ''rate limited'')) \<or>
      (\<exists>json. (Inr rate_limited_payload :: error + json) = Inr json \<and>
         update_from_json example_const json = Inl (UpdateFailed (JStr ''rate limited'')))"
    using u by simp
  note t = failed_refresh_arms_retry [OF h, of ?st, unfolded n]
  show ?thesis
    using t u by blast
qed

text \<open>
  C10. Whatever exception the update raises, \<^verbatim>\<open>_async_update_with_retry\<close> catches it,
  arms the timer of the failure delay and raises the same exception again. One such
  exception is the \<^verbatim>\<open>KeyError\<close> of a document that passes the validation and whose
  first element of the result list is an object without \<^verbatim>\<open>symbol\<close>.
\<close>

theorem retry_wrapper_catches_every_exception:
  "(fst (async_update c fetched st) = Inl e \<longrightarrow>
      async_update_with_retry c fetched st =
        (Inl e, add_refresh_later FAILURE_ASYNC_REQUEST_REFRESH
                  (snd (async_update c fetched st))) \<and>
      timers (snd (async_update_with_retry c fetched st)) =
        filter (\<lambda>t. Some (fst t) \<noteq> refresh_remover st) (timers st) @
        [(next_handle st, FAILURE_ASYNC_REQUEST_REFRESH)]) \<and>
   (map_of doc ''quoteResponse'' = Some (JObj container) \<and>
    (map_of container ''error'' = None \<or> map_of container ''error'' = Some JNull) \<and>
    map_of container ''result'' = Some (JList (JObj symbol_data # rest)) \<and>
    map_of symbol_data ''symbol'' = None \<longrightarrow>
      fst (async_update c (Inr (JObj doc)) st) = Inl (KeyError ''symbol'') \<and>
      fst (async_update_with_retry c (Inr (JObj doc)) st) = Inl (KeyError ''symbol''))"
proof -
  have a: "fst (async_update c fetched st) = Inl e \<longrightarrow>
      async_update_with_retry c fetched st =
        (Inl e, add_refresh_later FAILURE_ASYNC_REQUEST_REFRESH
                  (snd (async_update c fetched st))) \<and>
      timers (snd (async_update_with_retry c fetched st)) =
        filter (\<lambda>t. Some (fst t) \<noteq> refresh_remover st) (timers st) @
        [(next_handle st, FAILURE_ASYNC_REQUEST_REFRESH)]"
    by (simp add: async_update_with_retry_eq async_update_state add_refresh_later_timers)
  have b: "fst (async_update c (Inr (JObj doc)) st) = Inl (KeyError ''symbol'')"
    if "map_of doc ''quoteResponse'' = Some (JObj container)"
      and "map_of container ''error'' = None \<or> map_of container ''error'' = Some JNull"
      and "map_of container ''result'' = Some (JList (JObj symbol_data # rest))"
      and "map_of symbol_data ''symbol'' = None"
    using that by (auto simp: async_update_result update_from_json_def bind_def)
  have c: "fst (async_update_with_retry c (Inr (JObj doc)) st) = Inl (KeyError ''symbol'')"
    if "fst (async_update c (Inr (JObj doc)) st) = Inl (KeyError ''symbol'')"
    using that by (simp add: async_update_with_retry_eq)
  show ?thesis
    using a b c by blast
qed

theorem retry_wrapper_catches_every_exception_witness:
  "async_update_with_retry example_const (Inr payload_without_symbol) (init [''BABA'']) =
     (Inl (KeyError ''symbol''),
      (init [''BABA''])\<lparr>fetches := 1, refresh_remover := Some 0, timers := [(0, 20)],
                        next_handle := 1\<rparr>)"
proof -
  let ?doc = "[(''quoteResponse'', JObj
       [(''error'', JNull),
        (''result'', JList [JObj [(''regularMarketPrice'', JFloat 232.73)]])])]"
  have k: "fst (async_update example_const (Inr (JObj ?doc)) (init [''BABA''])) =
      Inl (KeyError ''symbol'')"
    using retry_wrapper_catches_every_exception
      [of example_const _ "init [''BABA'']" _ ?doc
          "[(''error'', JNull),
            (''result'', JList [JObj [(''regularMarketPrice'', JFloat 232.73)]])]"
          "[(''regularMarketPrice'', JFloat 232.73)]" "[]"]
    by simp
  show ?thesis
    using retry_wrapper_catches_every_exception
      [of example_const "Inr payload_without_symbol" "init [''BABA'']" "KeyError ''symbol''"] k
    by (simp add: payload_without_symbol_def async_update_state add_refresh_later_def
        async_call_later_def init_def FAILURE_ASYNC_REQUEST_REFRESH_def)
qed

section \<open>The tracked symbols\<close>

lemma first_seen_Cons: "first_seen (x # xs) = x # first_seen (filter (\<lambda>y. y \<noteq> x) xs)"
proof -
  have "remdups (ys @ [x]) = remdups (filter (\<lambda>y. y \<noteq> x) ys) @ [x]" for ys
    by (induction ys) auto
  then have "remdups (rev xs @ [x]) = remdups (filter (\<lambda>y. y \<noteq> x) (rev xs)) @ [x]" .
  then show ?thesis
    by (simp add: first_seen_def rev_filter)
qed

lemma first_seen_set: "set (first_seen xs) = set xs"
  by (simp add: first_seen_def)

lemma first_seen_distinct: "distinct (first_seen xs)"
  by (simp add: first_seen_def)

lemma normalize_loop_result:
  assumes "those (map symbol_name defined) = Some names"
  shows "\<exists>added. normalize_loop defined syms normalized =
           Inr (syms @ first_seen (filter (\<lambda>n. n \<notin> set syms) names), normalized @ added) \<and>
         map symbol_name added = map Some (first_seen (filter (\<lambda>n. n \<notin> set syms) names))"
  using assms
proof (induction defined arbitrary: names syms normalized)
  case Nil
  then show ?case by (simp add: first_seen_def)
next
  case (Cons x rest)
  from Cons.prems obtain n ns where n: "symbol_name x = Some n"
    and ns: "those (map symbol_name rest) = Some ns" and names: "names = n # ns"
    by (auto split: option.splits)
  have step: "normalize_loop (x # rest) syms normalized =
      (if n \<notin> set syms
       then normalize_loop rest (syms @ [n])
              (normalized @ [case x of Basic v \<Rightarrow> Complex [(''symbol'', v)] | Complex v \<Rightarrow> x])
       else normalize_loop rest syms normalized)"
    using n by (cases x) simp_all
  have nm: "symbol_name (case x of Basic v \<Rightarrow> Complex [(''symbol'', v)] | Complex v \<Rightarrow> x) = Some n"
    using n by (cases x) simp_all
  show ?case
  proof (cases "n \<in> set syms")
    case True
    with Cons.IH [OF ns, of syms normalized] show ?thesis
      by (simp add: step names)
  next
    case False
    have f: "(\<lambda>m. m \<noteq> n \<and> m \<notin> set syms) = (\<lambda>x. x \<notin> set syms \<and> x \<noteq> n)"
      by auto
    from Cons.IH [OF ns, of "syms @ [n]"
        "normalized @ [case x of Basic v \<Rightarrow> Complex [(''symbol'', v)] | Complex v \<Rightarrow> x]"]
    obtain added where
      a: "normalize_loop rest (syms @ [n])
            (normalized @ [case x of Basic v \<Rightarrow> Complex [(''symbol'', v)] | Complex v \<Rightarrow> x]) =
          Inr ((syms @ [n]) @ first_seen (filter (\<lambda>m. m \<notin> set (syms @ [n])) ns),
               (normalized @ [case x of Basic v \<Rightarrow> Complex [(''symbol'', v)] | Complex v \<Rightarrow> x])
                 @ added)"
      and b: "map symbol_name added =
          map Some (first_seen (filter (\<lambda>m. m \<notin> set (syms @ [n])) ns))"
      by blast
    let ?added = "(case x of Basic v \<Rightarrow> Complex [(''symbol'', v)] | Complex v \<Rightarrow> x) # added"
    have "normalize_loop (x # rest) syms normalized =
        Inr (syms @ first_seen (filter (\<lambda>n. n \<notin> set syms) names), normalized @ ?added)"
      using False a by (simp add: step names first_seen_Cons f)
    moreover have "map symbol_name ?added =
        map Some (first_seen (filter (\<lambda>n. n \<notin> set syms) names))"
      using False b nm by (simp add: names first_seen_Cons f)
    ultimately show ?thesis by blast
  qed
qed

lemma symbols_add_symbol:
  "symbols (snd (add_symbol s st)) = (if s \<in> set (symbols st) then symbols st else symbols st @ [s])"
  by (simp add: add_symbol_def add_refresh_later_fields)

lemma symbols_async_refresh: "symbols (async_refresh c fetched st) = symbols st"
  by (simp add: async_refresh_eq add_refresh_later_fields split: sum.splits)

lemma symbols_fire: "symbols (fire h st) = symbols st"
  by (simp add: fire_def async_request_refresh_later_def async_request_refresh_def)

lemma symbols_apply_event:
  "symbols (apply_event c ev st) =
     (case ev of
        AddSymbol s \<Rightarrow> if s \<in> set (symbols st) then symbols st else symbols st @ [s]
      | _ \<Rightarrow> symbols st)"
  by (cases ev)
     (simp_all add: symbols_add_symbol symbols_async_refresh symbols_fire
        async_request_refresh_def)

lemma symbols_run_prefix: "prefix (symbols st) (symbols (run c events st))"
  unfolding run_def
proof (induction events arbitrary: st)
  case Nil
  show ?case by simp
next
  case (Cons ev events)
  have "prefix (symbols st) (symbols (apply_event c ev st))"
    by (simp add: symbols_apply_event split: event.splits)
  then show ?case
    using Cons.IH [of "apply_event c ev st"] by (auto intro: prefix_order.trans)
qed

text \<open>
  C7, as the code has it. When every configured entry has a symbol, \<^verbatim>\<open>normalize_input\<close>
  returns, and the symbols the coordinator is built with are the configured identifiers
  without repetitions (duplicates dropped), listed in the iteration order of a Python set:
  whatever that order is, the sequence is without repetitions and holds exactly the
  configured identifiers, and it is the list of normalized definitions that is in
  first-seen order. The tracked symbols never shrink, over any run of the coordinator the
  earlier sequence is a prefix of the later one, and an event that changes them is the
  adding of an untracked symbol, which appends it.
\<close>

theorem tracked_symbols_unique_and_growing:
  "(those (map symbol_name defined_symbols) = Some names \<and> set_order list_of_set \<longrightarrow>
      (\<exists>syms normalized.
         normalize_input list_of_set defined_symbols = Inr (syms, normalized) \<and>
         get_symbols (init syms) = syms \<and>
         syms = list_of_set (first_seen names) \<and>
         distinct syms \<and> set syms = set names \<and>
         map symbol_name normalized = map Some (first_seen names))) \<and>
   prefix (get_symbols st) (get_symbols (run c events st)) \<and>
   (get_symbols (apply_event c ev st) \<noteq> get_symbols st \<longrightarrow>
      (\<exists>s. ev = AddSymbol s \<and> s \<notin> set (get_symbols st) \<and>
         get_symbols (apply_event c ev st) = get_symbols st @ [s]))"
proof -
  have a: "\<exists>syms normalized.
         normalize_input list_of_set defined_symbols = Inr (syms, normalized) \<and>
         get_symbols (init syms) = syms \<and>
         syms = list_of_set (first_seen names) \<and>
         distinct syms \<and> set syms = set names \<and>
         map symbol_name normalized = map Some (first_seen names)"
    if t: "those (map symbol_name defined_symbols) = Some names" and o: "set_order list_of_set"
  proof -
    from normalize_loop_result [OF t, of "[]" "[]"] obtain added where
      l: "normalize_loop defined_symbols [] [] = Inr (first_seen names, added)"
      and m: "map symbol_name added = map Some (first_seen names)"
      by auto
    have d: "distinct (list_of_set (first_seen names))"
      and s: "set (list_of_set (first_seen names)) = set names"
      using o first_seen_distinct [of names] first_seen_set [of names]
      by (auto simp: set_order_def)
    have "normalize_input list_of_set defined_symbols =
        Inr (list_of_set (first_seen names), added)"
      by (simp add: normalize_input_def bind_def l)
    then show ?thesis
      using d s m by (simp add: get_symbols_def init_def)
  qed
  have b: "prefix (get_symbols st) (get_symbols (run c events st))"
    by (simp add: get_symbols_def symbols_run_prefix)
  have e: "get_symbols (apply_event c ev st) \<noteq> get_symbols st \<longrightarrow>
      (\<exists>s. ev = AddSymbol s \<and> s \<notin> set (get_symbols st) \<and>
         get_symbols (apply_event c ev st) = get_symbols st @ [s])"
    by (cases ev)
       (simp_all add: get_symbols_def symbols_add_symbol symbols_async_refresh symbols_fire
          async_request_refresh_def)
  show ?thesis
    using a b e by blast
qed

theorem tracked_symbols_unique_and_growing_witness:
  "those (map symbol_name
      [Basic ''BABA'', Complex [(''symbol'', ''MSFT''), (''target_currency'', ''EUR'')],
       Basic ''BABA'']) = Some [''BABA'', ''MSFT'', ''BABA''] \<and>
   set_order rev \<and>
   map_sum id fst (normalize_input rev
      [Basic ''BABA'', Complex [(''symbol'', ''MSFT''), (''target_currency'', ''EUR'')],
       Basic ''BABA'']) = Inr [''MSFT'', ''BABA'']"
proof -
  let ?defined = "[Basic ''BABA'', Complex [(''symbol'', ''MSFT''), (''target_currency'', ''EUR'')],
       Basic ''BABA'']"
  let ?names = "[''BABA'', ''MSFT'', ''BABA'']"
  have t: "those (map symbol_name ?defined) = Some ?names"
    by simp
  have o: "set_order rev"
    by (simp add: set_order_def)
  have f: "rev (first_seen ?names) = [''MSFT'', ''BABA'']"
    by (simp add: first_seen_def)
  have "\<exists>syms normalized. normalize_input rev ?defined = Inr (syms, normalized) \<and>
      get_symbols (init syms) = syms \<and> syms = rev (first_seen ?names) \<and>
      distinct syms \<and> set syms = set ?names \<and>
      map symbol_name normalized = map Some (first_seen ?names)"
    by (rule tracked_symbols_unique_and_growing
          [of ?defined ?names rev, THEN conjunct1, THEN mp, OF conjI [OF t o]])
  then obtain syms normalized where
    n: "normalize_input rev ?defined = Inr (syms, normalized)"
    and s: "syms = rev (first_seen ?names)"
    by (elim exE conjE)
  have "map_sum id fst (normalize_input rev ?defined) = Inr [''MSFT'', ''BABA'']"
    unfolding n s f by simp
  with t o show ?thesis
    by (intro conjI)
qed

text \<open>
  C7 as stated fails: a set may be listed in another order than the one its elements
  were added in, for one in the reverse order, and then the symbols the coordinator is
  built with are not in first-seen order.
\<close>

theorem tracked_symbols_order_counterexample:
  "set_order rev \<and>
   first_seen [''BABA'', ''MSFT''] = [''BABA'', ''MSFT''] \<and>
   normalize_input rev [Basic ''BABA'', Basic ''MSFT''] =
     Inr ([''MSFT'', ''BABA''],
          [Complex [(''symbol'', ''BABA'')], Complex [(''symbol'', ''MSFT'')]])"
  by (simp add: set_order_def first_seen_def normalize_input_def bind_def)

end
